theory Spec2Isabelle
  imports Complex_Main "HOL-Library.FSet" "HOL-Library.Multiset" "HOL-Library.Extended_Nat"
begin

section \<open>Numbers, points and vector helpers (utils/geometry)\<close>

text \<open>
  JavaScript numbers are modelled as mathematical reals: rounding, NaN and the infinities
  of IEEE doubles are outside the model. The only infinity the code writes down itself,
  the initial \<open>bestDist = Infinity\<close> of the nearest-neighbour scan, is modelled by
  \<open>None\<close> in a \<open>real option\<close>.

  \<open>Point3D\<close> (and MediaPipe's \<open>NormalizedLandmark\<close>, of which only the three
  coordinates are read) has the fields \<open>x\<close>, \<open>y\<close>, \<open>z\<close>; they are called
  \<open>px\<close>, \<open>py\<close>, \<open>pz\<close> here.
\<close>

record Point3D =
  px :: real
  py :: real
  pz :: real

definition sub :: "Point3D \<Rightarrow> Point3D \<Rightarrow> Point3D" where
  "sub a b = \<lparr>px = px a - px b, py = py a - py b, pz = pz a - pz b\<rparr>"

definition cross :: "Point3D \<Rightarrow> Point3D \<Rightarrow> Point3D" where
  "cross a b =
     \<lparr>px = py a * pz b - pz a * py b,
      py = pz a * px b - px a * pz b,
      pz = px a * py b - py a * px b\<rparr>"

definition dot :: "Point3D \<Rightarrow> Point3D \<Rightarrow> real" where
  "dot a b = px a * px b + py a * py b + pz a * pz b"

definition normalize_vec :: "Point3D \<Rightarrow> Point3D" where
  "normalize_vec a =
     (let len = sqrt (px a * px a + py a * py a + pz a * pz a)
      in if len = 0 then \<lparr>px = 0, py = 0, pz = 0\<rparr>
         else \<lparr>px = px a / len, py = py a / len, pz = pz a / len\<rparr>)"

definition scaleVec :: "Point3D \<Rightarrow> real \<Rightarrow> Point3D" where
  "scaleVec a s = \<lparr>px = px a * s, py = py a * s, pz = pz a * s\<rparr>"

section \<open>calculateSymmetryMap\<close>

text \<open>
  Reading \<open>landmarks[i]\<close> beyond the end of a JavaScript array gives \<open>undefined\<close>;
  \<open>elem_at\<close> returns \<open>None\<close> there. Reading a field of \<open>undefined\<close> throws a
  TypeError.
\<close>

datatype js_error = TypeError

definition elem_at :: "'a list \<Rightarrow> nat \<Rightarrow> 'a option" where
  "elem_at xs i = (if i < length xs then Some (xs ! i) else None)"

text \<open>The centroid of the three midline landmarks, \<open>planePoint\<close> in the source.\<close>

definition planePoint :: "Point3D \<Rightarrow> Point3D \<Rightarrow> Point3D \<Rightarrow> Point3D" where
  "planePoint p10 p152 p168 =
     \<lparr>px = (px p10 + px p152 + px p168) / 3,
      py = (py p10 + py p152 + py p168) / 3,
      pz = (pz p10 + pz p152 + pz p168) / 3\<rparr>"

text \<open>\<open>planeNormal = normalize(cross(vY, vZ))\<close> with \<open>vY = p10 - p152\<close>, \<open>vZ = p1 - p152\<close>.\<close>

definition planeNormal :: "Point3D \<Rightarrow> Point3D \<Rightarrow> Point3D \<Rightarrow> Point3D" where
  "planeNormal p10 p152 p1 =
     (let vY = sub p10 p152; vZ = sub p1 p152 in normalize_vec (cross vY vZ))"

text \<open>The body of the outer loop up to \<open>reflection\<close>.\<close>

definition reflection :: "Point3D \<Rightarrow> Point3D \<Rightarrow> Point3D \<Rightarrow> Point3D" where
  "reflection P0 n p =
     (let v = sub p P0; dist = dot v n in sub p (scaleVec n (2 * dist)))"

text \<open>The squared distance \<open>d\<close> computed in the inner loop.\<close>

definition sqdist :: "Point3D \<Rightarrow> Point3D \<Rightarrow> real" where
  "sqdist q r = (px q - px r)\<^sup>2 + (py q - py r)\<^sup>2 + (pz q - pz r)\<^sup>2"

text \<open>
  One pass of the inner loop on the pair \<open>(bestDist, bestIdx)\<close>; \<open>None\<close> is the
  initial \<open>Infinity\<close>, below which every real \<open>d\<close> lies.
\<close>

definition nearest_step :: "Point3D list \<Rightarrow> Point3D \<Rightarrow> nat \<Rightarrow> real option \<times> int \<Rightarrow> real option \<times> int" where
  "nearest_step landmarks r j st =
     (let q = landmarks ! j; d = sqdist q r
      in if (case fst st of None \<Rightarrow> True | Some bestDist \<Rightarrow> d < bestDist)
         then (Some d, int j) else st)"

text \<open>The inner loop \<open>for (j = 0; j < landmarks.length; j++)\<close>, returning \<open>bestIdx\<close>.\<close>

definition nearest :: "Point3D list \<Rightarrow> Point3D \<Rightarrow> int" where
  "nearest landmarks r = snd (fold (nearest_step landmarks r) [0..<length landmarks] (None, -1))"

text \<open>
  The function itself. The result is the record \<open>map\<close>, a partial map from index to
  index. The early return on a missing midline landmark gives the empty record. The
  read of \<open>landmarks[1]\<close> is unguarded in the source, so \<open>sub(p1, p152)\<close> would throw
  if it were absent.
\<close>

text \<open>
  The point \<open>reflection\<close> that the outer loop computes for index \<open>i\<close>, in terms of
  the landmark list alone.
\<close>

definition mirrored :: "Point3D list \<Rightarrow> nat \<Rightarrow> Point3D" where
  "mirrored landmarks i =
     reflection (planePoint (landmarks ! 10) (landmarks ! 152) (landmarks ! 168))
       (planeNormal (landmarks ! 10) (landmarks ! 152) (landmarks ! 1)) (landmarks ! i)"

definition calculateSymmetryMap :: "Point3D list \<Rightarrow> js_error + (nat \<rightharpoonup> int)" where
  "calculateSymmetryMap landmarks =
     (case (elem_at landmarks 10, elem_at landmarks 152, elem_at landmarks 168) of
        (Some p10, Some p152, Some p168) \<Rightarrow>
          (case elem_at landmarks 1 of
             None \<Rightarrow> Inl TypeError
           | Some p1 \<Rightarrow>
               let P0 = planePoint p10 p152 p168;
                   n = planeNormal p10 p152 p1
               in Inr (fold (\<lambda>i m. m(i \<mapsto> nearest landmarks (reflection P0 n (landmarks ! i))))
                         [0..<length landmarks] Map.empty))
      | _ \<Rightarrow> Inr Map.empty)"

section \<open>The view transform, the brush and the hover check (components/CanvasArea)\<close>

text \<open>
  The component's \<open>scale\<close> and \<open>pan = {x, y}\<close> states, and the two dimensions that are
  read of the loaded image element.
\<close>

record ViewState =
  scale :: real
  pan_x :: real
  pan_y :: real

record HTMLImage =
  naturalWidth :: real
  naturalHeight :: real

datatype Mode = Add | Subtract

definition screenToWorld :: "ViewState \<Rightarrow> real \<Rightarrow> real \<Rightarrow> real \<times> real" where
  "screenToWorld v sx sy = ((sx - pan_x v) / scale v, (sy - pan_y v) / scale v)"

text \<open>
  The source has no function for the inverse map: \<open>draw\<close> sets it up on the canvas by
  \<open>ctx.translate(pan.x, pan.y)\<close> followed by \<open>ctx.scale(scale, scale)\<close>, so a world
  point is painted at the screen position below.
\<close>

definition worldToScreen :: "ViewState \<Rightarrow> real \<times> real \<Rightarrow> real \<times> real" where
  "worldToScreen v w = (fst w * scale v + pan_x v, snd w * scale v + pan_y v)"

text \<open>\<open>distSq\<close> of \<open>performSelection\<close>, for one landmark.\<close>

definition distSq :: "HTMLImage \<Rightarrow> real \<times> real \<Rightarrow> Point3D \<Rightarrow> real" where
  "distSq img worldPos l =
     (let lx = px l * naturalWidth img; ly = py l * naturalHeight img
      in (lx - fst worldPos)\<^sup>2 + (ly - snd worldPos)\<^sup>2)"

text \<open>
  \<open>performSelection\<close>: the result is the call of \<open>onSelectionChange\<close> it makes, if any.
  \<open>landmarks\<close> and \<open>imgElement\<close> are \<open>null\<close> until an image has been loaded and a
  face detected.
\<close>

definition performSelection ::
  "Point3D list option \<Rightarrow> HTMLImage option \<Rightarrow> ViewState \<Rightarrow> real \<Rightarrow> Mode \<Rightarrow> real \<Rightarrow> real
     \<Rightarrow> (int list \<times> Mode) option" where
  "performSelection landmarks imgElement v brushSize mode screenX screenY =
     (case (landmarks, imgElement) of
        (Some ls, Some img) \<Rightarrow>
          let worldPos = screenToWorld v screenX screenY;
              worldRadiusSq = (brushSize / scale v)\<^sup>2;
              indicesToUpdate =
                map int (filter (\<lambda>i. distSq img worldPos (ls ! i) < worldRadiusSq) [0..<length ls])
          in if length indicesToUpdate > 0 then Some (indicesToUpdate, mode) else None
      | _ \<Rightarrow> None)"

text \<open>\<open>dist\<close> of the hover check in \<open>handlePointerMove\<close>, for one landmark.\<close>

definition hover_dist :: "HTMLImage \<Rightarrow> real \<times> real \<Rightarrow> Point3D \<Rightarrow> real" where
  "hover_dist img worldPos l =
     (let lx = px l * naturalWidth img; ly = py l * naturalHeight img
      in sqrt ((lx - fst worldPos)\<^sup>2 + (ly - snd worldPos)\<^sup>2))"

text \<open>
  The hover check at the end of \<open>handlePointerMove\<close> (it is not reached while panning):
  the new value of the \<open>hoveredIndex\<close> state, which stays as it was when there is no
  image or no landmarks.
\<close>

definition hoverCheck ::
  "HTMLImage option \<Rightarrow> Point3D list option \<Rightarrow> ViewState \<Rightarrow> real \<Rightarrow> real \<Rightarrow> int option
     \<Rightarrow> int option" where
  "hoverCheck imgElement landmarks v x y hoveredIndex =
     (case (imgElement, landmarks) of
        (Some img, Some ls) \<Rightarrow>
          let worldPos = screenToWorld v x y;
              hoverThresh = 5 / scale v;
              foundHover =
                fold (\<lambda>i found. if hover_dist img worldPos (ls ! i) < hoverThresh then int i else found)
                  [0..<length ls] (- 1)
          in if foundHover \<noteq> - 1 then Some foundHover else None
      | _ \<Rightarrow> hoveredIndex)"

definition handleWheel :: "ViewState \<Rightarrow> real \<Rightarrow> real \<Rightarrow> real \<Rightarrow> ViewState" where
  "handleWheel v deltaY mouseX mouseY =
     (let zoomSensitivity = 0.001;
          delta = - deltaY * zoomSensitivity;
          zoomFactor = exp delta;
          newScale = max 0.1 (min 20 (scale v * zoomFactor));
          newPanX = mouseX - (mouseX - pan_x v) * (newScale / scale v);
          newPanY = mouseY - (mouseY - pan_y v) * (newScale / scale v)
      in \<lparr>scale = newScale, pan_x = newPanX, pan_y = newPanY\<rparr>)"

section \<open>Selection groups and the brush handler (App)\<close>

text \<open>
  A \<open>SelectionGroup\<close>; its \<open>id\<close> field is called \<open>gid\<close>. The \<open>Set<number>\<close> of
  indices is a finite set of integers: no claim below depends on the insertion order a
  JavaScript \<open>Set\<close> also keeps.
\<close>

record SelectionGroup =
  gid :: string
  name :: string
  indices :: "int fset"
  visible :: bool
  color :: string

text \<open>
  The body of \<open>indices.forEach\<close> in \<open>handleSelectionChange\<close>, on the pair
  \<open>(nextIndices, changed)\<close>.
\<close>

definition selection_step :: "Mode \<Rightarrow> int \<Rightarrow> int fset \<times> bool \<Rightarrow> int fset \<times> bool" where
  "selection_step currentMode idx st =
     (let nextIndices = fst st; changed = snd st
      in if currentMode = Add
         then (if idx |\<notin>| nextIndices then (finsert idx nextIndices, True) else (nextIndices, changed))
         else (if idx |\<in>| nextIndices then (nextIndices |-| {|idx|}, True) else (nextIndices, changed)))"

definition handleSelectionChange ::
  "string \<Rightarrow> int list \<Rightarrow> Mode \<Rightarrow> SelectionGroup list \<Rightarrow> SelectionGroup list" where
  "handleSelectionChange activeGroupId idxs currentMode prevGroups =
     map (\<lambda>g. if gid g \<noteq> activeGroupId then g
              else let st = fold (selection_step currentMode) idxs (indices g, False)
                   in if snd st then g\<lparr>indices := fst st\<rparr> else g)
       prevGroups"

text \<open>
  One brush sample: \<open>CanvasArea\<close> calls \<open>performSelection\<close>, whose
  \<open>onSelectionChange\<close> is \<open>handleSelectionChange\<close> of \<open>App\<close>; the group list is the
  only state the sample can change.
\<close>

definition brushSample ::
  "Point3D list option \<Rightarrow> HTMLImage option \<Rightarrow> ViewState \<Rightarrow> real \<Rightarrow> Mode \<Rightarrow> string
     \<Rightarrow> real \<Rightarrow> real \<Rightarrow> SelectionGroup list \<Rightarrow> SelectionGroup list" where
  "brushSample landmarks imgElement v brushSize mode activeGroupId screenX screenY groups =
     (case performSelection landmarks imgElement v brushSize mode screenX screenY of
        None \<Rightarrow> groups
      | Some ev \<Rightarrow> handleSelectionChange activeGroupId (fst ev) (snd ev) groups)"

section \<open>Export and import of the group list (App)\<close>

text \<open>
  The export builds the plain object \<open>exportData\<close> by one assignment
  \<open>exportData[g.name] = ...\<close> per group. The object is modelled by the list of its own
  properties in the order in which \<open>JSON.stringify\<close> and \<open>Object.entries\<close> enumerate
  them: keys that are array indices (canonical decimal numerals below \<open>2^32 - 1\<close>) first,
  in ascending numeric order, then the other keys in the order of their creation.
\<close>

definition is_digit :: "char \<Rightarrow> bool" where
  "is_digit c = (48 \<le> (of_char c :: nat) \<and> (of_char c :: nat) \<le> 57)"

definition dec_value :: "string \<Rightarrow> nat" where
  "dec_value s = fold (\<lambda>c n. 10 * n + (of_char c - 48)) s 0"

definition array_index :: "string \<Rightarrow> nat option" where
  "array_index s =
     (if s \<noteq> [] \<and> list_all is_digit s \<and> (hd s \<noteq> CHR ''0'' \<or> length s = 1)
         \<and> dec_value s < 2 ^ 32 - 1
      then Some (dec_value s) else None)"

text \<open>Creating a property whose key is the array index \<open>n\<close>.\<close>

fun insert_index :: "nat \<Rightarrow> string \<Rightarrow> 'v \<Rightarrow> (string \<times> 'v) list \<Rightarrow> (string \<times> 'v) list" where
  "insert_index n k v [] = [(k, v)]"
| "insert_index n k v (e # rest) =
     (case array_index (fst e) of
        Some n' \<Rightarrow> if n' < n then e # insert_index n k v rest else (k, v) # e # rest
      | None \<Rightarrow> (k, v) # e # rest)"

text \<open>
  The assignment \<open>obj[k] = v\<close> of an array \<open>v\<close> to a plain object created by \<open>{}\<close>.
  An existing property keeps its place and takes the new value. The key
  \<open>__proto__\<close> is not a property of the object but the accessor inherited from
  \<open>Object.prototype\<close>: assigning an array to it replaces the object's prototype and
  creates no own property, so nothing is enumerated for it.
\<close>

definition obj_set :: "string \<Rightarrow> 'v \<Rightarrow> (string \<times> 'v) list \<Rightarrow> (string \<times> 'v) list" where
  "obj_set k v obj =
     (if k = ''__proto__'' then obj
      else if k \<in> fst ` set obj then map (\<lambda>e. if fst e = k then (k, v) else e) obj
      else case array_index k of
             Some n \<Rightarrow> insert_index n k v obj
           | None \<Rightarrow> obj @ [(k, v)])"

text \<open>
  \<open>exportData\<close> as \<open>handleExport\<close> leaves it after \<open>groups.forEach\<close>;
  \<open>Array.from(g.indices).sort((a, b) => a - b)\<close> is the ascending list of the set.
\<close>

definition exportData :: "SelectionGroup list \<Rightarrow> (string \<times> int list) list" where
  "exportData gs =
     fold (\<lambda>g obj. obj_set (name g) (sorted_list_of_fset (indices g)) obj) gs []"

text \<open>
  A parsed JSON document, as far as \<open>handleImportJSON\<close> looks into it: an array, an
  object (its entries in \<open>Object.entries\<close> order), \<open>null\<close>, or a primitive. The
  elements of an array are never inspected: the code casts them to \<open>number[]\<close>, and the
  model takes them to be integers. A document and the value \<open>JSON.parse\<close> returns for it
  are identified: \<open>handleExport\<close> is the document that is written.
\<close>

datatype json = JArray "int list" | JObject "(string \<times> json) list" | JNull | JPrimitive

definition handleExport :: "SelectionGroup list \<Rightarrow> json" where
  "handleExport gs = JObject (map (\<lambda>e. (fst e, JArray (snd e))) (exportData gs))"

text \<open>
  \<open>getRandomColor\<close>, given the value \<open>r\<close> of
  \<open>Math.floor(Math.random() * colors.length)\<close>.
\<close>

definition colors :: "string list" where
  "colors = [''#bb86fc'', ''#03dac6'', ''#cf6679'', ''#ffb74d'', ''#4dd0e1'', ''#aed581'']"

definition getRandomColor :: "nat \<Rightarrow> string" where
  "getRandomColor r = colors ! (r mod length colors)"

record AppState =
  groups :: "SelectionGroup list"
  activeGroupId :: string

text \<open>
  The loop \<open>Object.entries(json).forEach(([name, indices], idx) => ...)\<close> on the pair
  \<open>(newGroups, firstId)\<close>. The random sources are parameters: \<open>genId n\<close> is the result
  of the \<open>n\<close>-th call of \<open>generateId\<close> (one call per entry, so entry \<open>idx\<close> gets
  \<open>genId idx\<close>) and \<open>rnd n\<close> the random draw of the \<open>n\<close>-th call of
  \<open>getRandomColor\<close> (one call per group pushed).
\<close>

fun import_entries ::
  "(nat \<Rightarrow> string) \<Rightarrow> (nat \<Rightarrow> nat) \<Rightarrow> (string \<times> json) list \<Rightarrow> nat
     \<Rightarrow> SelectionGroup list \<times> string \<Rightarrow> SelectionGroup list \<times> string" where
  "import_entries genId rnd [] idx acc = acc"
| "import_entries genId rnd (e # rest) idx acc =
     (let newGroups = fst acc;
          ident = genId idx;
          firstId = (if idx = 0 then ident else snd acc);
          newGroups' =
            (case snd e of
               JArray xs \<Rightarrow>
                 newGroups @
                   [\<lparr>gid = ident, name = fst e, indices = fset_of_list xs, visible = True,
                     color = getRandomColor (rnd (length newGroups))\<rparr>]
             | _ \<Rightarrow> newGroups)
      in import_entries genId rnd rest (Suc idx) (newGroups', firstId))"

text \<open>
  The \<open>reader.onload\<close> handler of \<open>handleImportJSON\<close> on a parsed document: either
  the message it passes to \<open>alert\<close>, with the state untouched, or the new state.
  \<open>typeof null\<close> is \<open>'object'\<close>, and \<open>Object.entries(null)\<close> throws into the
  surrounding \<open>catch\<close>.
\<close>

definition handleImportJSON ::
  "(nat \<Rightarrow> string) \<Rightarrow> (nat \<Rightarrow> nat) \<Rightarrow> json \<Rightarrow> AppState \<Rightarrow> string + AppState" where
  "handleImportJSON genId rnd doc st =
     (case doc of
        JArray xs \<Rightarrow>
          Inr (st\<lparr>groups :=
                 map (\<lambda>g. if gid g \<noteq> activeGroupId st then g else g\<lparr>indices := fset_of_list xs\<rparr>)
                   (groups st)\<rparr>)
      | JObject entries \<Rightarrow>
          (let res = import_entries genId rnd entries 0 ([], [])
           in if length (fst res) > 0
              then Inr \<lparr>groups = fst res, activeGroupId = snd res\<rparr>
              else Inl ''No valid groups found in JSON.'')
      | JNull \<Rightarrow> Inl ''Failed to parse JSON''
      | JPrimitive \<Rightarrow> Inl ''Invalid JSON format.'')"

section \<open>Notions used to state the properties\<close>

text \<open>
  The indices under the brush at a screen position: those \<open>performSelection\<close> hands to
  \<open>onSelectionChange\<close> (the mode plays no part in which they are), none when it makes no
  call.
\<close>

definition brushed ::
  "Point3D list option \<Rightarrow> HTMLImage option \<Rightarrow> ViewState \<Rightarrow> real \<Rightarrow> real \<Rightarrow> real \<Rightarrow> int fset" where
  "brushed landmarks imgElement v brushSize screenX screenY =
     (case performSelection landmarks imgElement v brushSize Add screenX screenY of
        None \<Rightarrow> {||}
      | Some ev \<Rightarrow> fset_of_list (fst ev))"

text \<open>
  The set of indices the specification gives for a brush sample: those of the points whose
  squared world-space distance to the converted screen point is strictly below
  \<open>(brushRadius / scale)\<^sup>2\<close>.
\<close>

definition within_brush ::
  "HTMLImage \<Rightarrow> Point3D list \<Rightarrow> ViewState \<Rightarrow> real \<Rightarrow> real \<Rightarrow> real \<Rightarrow> nat set" where
  "within_brush img ls v brushSize screenX screenY =
     {i. i < length ls \<and>
         distSq img (screenToWorld v screenX screenY) (ls ! i) < (brushSize / scale v)\<^sup>2}"

text \<open>Point \<open>i\<close> is nearer to the converted pointer position than the threshold \<open>5 / scale\<close>.\<close>

definition hover_near :: "HTMLImage \<Rightarrow> Point3D list \<Rightarrow> ViewState \<Rightarrow> real \<Rightarrow> real \<Rightarrow> nat \<Rightarrow> bool" where
  "hover_near img ls v x y i = (hover_dist img (screenToWorld v x y) (ls ! i) < 5 / scale v)"

text \<open>
  The hover probe as the specification words it: the result is the index of a closest
  point among those nearer than the threshold, or none when no point is that near.
\<close>

definition closest_within_threshold ::
  "HTMLImage \<Rightarrow> Point3D list \<Rightarrow> ViewState \<Rightarrow> real \<Rightarrow> real \<Rightarrow> int option \<Rightarrow> bool" where
  "closest_within_threshold img ls v x y res =
     (case res of
        None \<Rightarrow> \<forall>i<length ls. \<not> hover_near img ls v x y i
      | Some r \<Rightarrow>
          0 \<le> r \<and> nat r < length ls \<and> hover_near img ls v x y (nat r) \<and>
          (\<forall>i<length ls. hover_dist img (screenToWorld v x y) (ls ! nat r)
                            \<le> hover_dist img (screenToWorld v x y) (ls ! i)))"

text \<open>\<open>clamp(x, lo, hi)\<close> of the specification.\<close>

definition clamp :: "real \<Rightarrow> real \<Rightarrow> real \<Rightarrow> real" where
  "clamp x lo hi = (if x < lo then lo else if hi < x then hi else x)"

text \<open>
  What the round trip compares: the name of a group and the ascending array of its
  indices, as the export writes them.
\<close>

definition summary :: "SelectionGroup \<Rightarrow> string \<times> int list" where
  "summary g = (name g, sorted_list_of_fset (indices g))"

text \<open>
  The place of an exported entry in the enumeration order of the object: the numeric value
  of a key that is an array index, and infinity for any other key; \<open>plain_key\<close> says that
  the key is not an array index.
\<close>

definition entry_key :: "string \<times> 'v \<Rightarrow> enat" where
  "entry_key e = (case array_index (fst e) of Some n \<Rightarrow> enat n | None \<Rightarrow> \<infinity>)"

definition plain_key :: "string \<times> 'v \<Rightarrow> bool" where
  "plain_key e = (array_index (fst e) = None)"

section \<open>Sample data\<close>

text \<open>
  A landmark list of 169 points with the chin (152) at the origin, the forehead (10) and
  the glabella (168) on the \<open>y\<close> axis and the nose tip (1) on the \<open>z\<close> axis, so that the
  symmetry plane is \<open>x = 0\<close>; landmarks 2 and 3 are mirror images of each other.
\<close>

definition origin :: Point3D where
  "origin = \<lparr>px = 0, py = 0, pz = 0\<rparr>"

definition sample_face :: "Point3D list" where
  "sample_face =
     (replicate 169 origin)
       [1 := \<lparr>px = 0, py = 0, pz = 1\<rparr>,
        10 := \<lparr>px = 0, py = 1, pz = 0\<rparr>,
        168 := \<lparr>px = 0, py = 2, pz = 0\<rparr>,
        2 := \<lparr>px = 1, py = 0, pz = 0\<rparr>,
        3 := \<lparr>px = - 1, py = 0, pz = 0\<rparr>]"

text \<open>
  The five points of the specification's brush scenario, on an image of one pixel by one
  pixel (so that world coordinates are the normalised ones), the initial view, a view with
  scale 2 and pan \<open>(10, 10)\<close>, and two groups.
\<close>

definition pts5 :: "Point3D list" where
  "pts5 =
     [\<lparr>px = 0, py = 0, pz = 0\<rparr>, \<lparr>px = 1, py = 0, pz = 0\<rparr>, \<lparr>px = 2, py = 0, pz = 0\<rparr>,
      \<lparr>px = 0, py = 1, pz = 0\<rparr>, \<lparr>px = 0, py = 0, pz = 1\<rparr>]"

definition unit_image :: HTMLImage where
  "unit_image = \<lparr>naturalWidth = 1, naturalHeight = 1\<rparr>"

definition unit_view :: ViewState where
  "unit_view = \<lparr>scale = 1, pan_x = 0, pan_y = 0\<rparr>"

definition zoomed_view :: ViewState where
  "zoomed_view = \<lparr>scale = 2, pan_x = 10, pan_y = 10\<rparr>"

definition default_group :: "int fset \<Rightarrow> SelectionGroup" where
  "default_group S = \<lparr>gid = ''1'', name = ''Default'', indices = S, visible = True, color = ''#bb86fc''\<rparr>"

definition second_group :: SelectionGroup where
  "second_group = \<lparr>gid = ''2'', name = ''Group 2'', indices = {|4|}, visible = False, color = ''#03dac6''\<rparr>"

text \<open>
  Generated ids and random draws for the import, the state \<open>App\<close> starts in, a group
  renamed to \<open>__proto__\<close>, and two groups of which the second has a numeric name.
\<close>

definition sample_ids :: "nat \<Rightarrow> string" where
  "sample_ids n = (if n = 0 then ''id0'' else if n = 1 then ''id1'' else ''id2'')"

definition sample_rnd :: "nat \<Rightarrow> nat" where
  "sample_rnd n = n"

definition initial_state :: AppState where
  "initial_state = \<lparr>groups = [default_group {||}], activeGroupId = ''1''\<rparr>"

definition proto_group :: SelectionGroup where
  "proto_group = \<lparr>gid = ''1'', name = ''__proto__'', indices = {|1|}, visible = True, color = ''#bb86fc''\<rparr>"

definition named_groups :: "SelectionGroup list" where
  "named_groups =
     [\<lparr>gid = ''1'', name = ''brow'', indices = {|3, 1|}, visible = True, color = ''#bb86fc''\<rparr>,
      \<lparr>gid = ''2'', name = ''7'', indices = {|4|}, visible = False, color = ''#03dac6''\<rparr>]"

text \<open>Two groups that carry the same name.\<close>

definition twin_groups :: "SelectionGroup list" where
  "twin_groups =
     [\<lparr>gid = ''1'', name = ''A'', indices = {|1|}, visible = True, color = ''#bb86fc''\<rparr>,
      \<lparr>gid = ''2'', name = ''A'', indices = {|2|}, visible = True, color = ''#03dac6''\<rparr>]"

section \<open>Properties of the symmetry map\<close>

text \<open>The inner loop keeps the first minimum seen so far.\<close>

lemma nearest_fold_inv:
  "fold (nearest_step ls r) [0..<n] (None, -1) = (bd, bi) \<Longrightarrow> 0 < n \<Longrightarrow>
     0 \<le> bi \<and> nat bi < n \<and> bd = Some (sqdist (ls ! nat bi) r) \<and>
     (\<forall>k<n. sqdist (ls ! nat bi) r \<le> sqdist (ls ! k) r) \<and>
     (\<forall>k<nat bi. sqdist (ls ! nat bi) r < sqdist (ls ! k) r)"
proof (induction n arbitrary: bd bi)
  case 0
  then show ?case by simp
next
  case (Suc n)
  obtain bd0 bi0 where st: "fold (nearest_step ls r) [0..<n] (None, -1) = (bd0, bi0)"
    by (cases "fold (nearest_step ls r) [0..<n] (None, -1)") auto
  from Suc.prems(1) st have step: "nearest_step ls r n (bd0, bi0) = (bd, bi)"
    by simp
  show ?case
  proof (cases "n = 0")
    case True
    with st have "bd0 = None" "bi0 = -1" by simp_all
    with step True show ?thesis by (simp add: nearest_step_def Let_def)
  next
    case False
    then have "0 < n" by simp
    from Suc.IH[OF st this] have ih: "0 \<le> bi0" "nat bi0 < n" "bd0 = Some (sqdist (ls ! nat bi0) r)"
      "\<forall>k<n. sqdist (ls ! nat bi0) r \<le> sqdist (ls ! k) r"
      "\<forall>k<nat bi0. sqdist (ls ! nat bi0) r < sqdist (ls ! k) r" by simp_all
    show ?thesis
    proof (cases "sqdist (ls ! n) r < sqdist (ls ! nat bi0) r")
      case True
      with step ih(3) have eq: "bd = Some (sqdist (ls ! n) r)" "bi = int n"
        by (auto simp: nearest_step_def Let_def)
      have "\<forall>k<Suc n. sqdist (ls ! n) r \<le> sqdist (ls ! k) r"
        using True ih(4) by (auto simp: less_Suc_eq intro: less_imp_le order_trans)
      moreover have "\<forall>k<n. sqdist (ls ! n) r < sqdist (ls ! k) r"
        using True ih(4) by (auto intro: less_le_trans)
      ultimately show ?thesis using eq by simp
    next
      case False
      with step ih(3) have eq: "bd = bd0" "bi = bi0"
        by (auto simp: nearest_step_def Let_def)
      have "\<forall>k<Suc n. sqdist (ls ! nat bi0) r \<le> sqdist (ls ! k) r"
        using False ih(4) by (auto simp: less_Suc_eq)
      then show ?thesis using eq ih by simp
    qed
  qed
qed

lemma nearest_first_minimum:
  assumes "ls \<noteq> []"
  shows "\<exists>j<length ls. nearest ls r = int j \<and>
           (\<forall>k<length ls. sqdist (ls ! j) r \<le> sqdist (ls ! k) r) \<and>
           (\<forall>k<j. sqdist (ls ! j) r < sqdist (ls ! k) r)"
proof -
  obtain bd bi where st: "fold (nearest_step ls r) [0..<length ls] (None, -1) = (bd, bi)"
    by (cases "fold (nearest_step ls r) [0..<length ls] (None, -1)") auto
  from assms have "0 < length ls" by simp
  from nearest_fold_inv[OF st this] have inv: "0 \<le> bi" "nat bi < length ls"
    "\<forall>k<length ls. sqdist (ls ! nat bi) r \<le> sqdist (ls ! k) r"
    "\<forall>k<nat bi. sqdist (ls ! nat bi) r < sqdist (ls ! k) r" by simp_all
  have "nearest ls r = int (nat bi)" using st inv(1) by (simp add: nearest_def)
  with inv show ?thesis by blast
qed

lemma fold_map_upd:
  "fold (\<lambda>i m. m(i \<mapsto> f i)) [0..<n] m0 = (\<lambda>i. if i < n then Some (f i) else m0 i)"
  by (induction n) (auto simp: fun_eq_iff less_Suc_eq)

lemma calculateSymmetryMap_present:
  assumes "168 < length ls"
  shows "calculateSymmetryMap ls =
           Inr (\<lambda>i. if i < length ls then Some (nearest ls (mirrored ls i)) else None)"
  using assms
  by (simp add: calculateSymmetryMap_def elem_at_def fold_map_upd Let_def mirrored_def cong: if_cong)

lemma elem_at_None_iff: "elem_at xs i = None \<longleftrightarrow> length xs \<le> i"
  by (simp add: elem_at_def)

text \<open>
  C3. When the midline landmarks 10, 152 and 168 are present, the map sends every index
  \<open>i\<close> to an index \<open>j\<close> of the list whose point has the least squared distance to the
  reflection of point \<open>i\<close> across the computed plane, and \<open>j\<close> is the first such index:
  every earlier point is strictly farther from the reflection.
\<close>

theorem symmetry_map_first_nearest:
  assumes "elem_at ls 10 \<noteq> None" "elem_at ls 152 \<noteq> None" "elem_at ls 168 \<noteq> None"
    and "i < length ls"
  shows "\<exists>m j. calculateSymmetryMap ls = Inr m \<and> m i = Some (int j) \<and> j < length ls \<and>
           (\<forall>k<length ls. sqdist (ls ! j) (mirrored ls i) \<le> sqdist (ls ! k) (mirrored ls i)) \<and>
           (\<forall>k<j. sqdist (ls ! j) (mirrored ls i) < sqdist (ls ! k) (mirrored ls i))"
proof -
  from assms(3) have len: "168 < length ls" by (simp add: elem_at_None_iff)
  then have "ls \<noteq> []" by auto
  from nearest_first_minimum[OF this, of "mirrored ls i"] obtain j where
    j: "j < length ls" "nearest ls (mirrored ls i) = int j"
      "\<forall>k<length ls. sqdist (ls ! j) (mirrored ls i) \<le> sqdist (ls ! k) (mirrored ls i)"
      "\<forall>k<j. sqdist (ls ! j) (mirrored ls i) < sqdist (ls ! k) (mirrored ls i)"
    by blast
  show ?thesis
    using calculateSymmetryMap_present[OF len] assms(4) j by auto
qed

text \<open>On the sample face the reflection of landmark 2 is landmark 3, and the map says so.\<close>

lemma length_sample_face: "length sample_face = 169"
  by (simp add: sample_face_def)

lemma mirrored_sample_2: "mirrored sample_face 2 = \<lparr>px = - 1, py = 0, pz = 0\<rparr>"
  by (simp add: mirrored_def sample_face_def origin_def reflection_def planePoint_def planeNormal_def
      normalize_vec_def cross_def sub_def dot_def scaleVec_def Let_def)

lemma sample_face_3: "sample_face ! 3 = \<lparr>px = - 1, py = 0, pz = 0\<rparr>"
  by (simp add: sample_face_def)

lemma sample_face_px: "j < 169 \<Longrightarrow> px (sample_face ! j) = - 1 \<Longrightarrow> j = 3"
  by (simp add: sample_face_def origin_def nth_list_update split: if_splits)

lemma sqdist_zero: "sqdist q r \<le> 0 \<Longrightarrow> px q = px r"
proof -
  assume a: "sqdist q r \<le> 0"
  have "(px q - px r)\<^sup>2 \<le> sqdist q r" by (simp add: sqdist_def)
  with a have "(px q - px r)\<^sup>2 \<le> 0" by linarith
  then show ?thesis by simp
qed

theorem symmetry_map_first_nearest_witness:
  "elem_at sample_face 10 \<noteq> None \<and> elem_at sample_face 152 \<noteq> None \<and>
   elem_at sample_face 168 \<noteq> None \<and> 2 < length sample_face \<and>
   (\<exists>m. calculateSymmetryMap sample_face = Inr m \<and> m 2 = Some 3)"
proof -
  have h: "elem_at sample_face 10 \<noteq> None" "elem_at sample_face 152 \<noteq> None"
    "elem_at sample_face 168 \<noteq> None" "2 < length sample_face"
    by (simp_all add: elem_at_def length_sample_face)
  from symmetry_map_first_nearest[OF h] obtain m j where
    mj: "calculateSymmetryMap sample_face = Inr m" "m 2 = Some (int j)" "j < length sample_face"
      "\<forall>k<length sample_face. sqdist (sample_face ! j) (mirrored sample_face 2)
          \<le> sqdist (sample_face ! k) (mirrored sample_face 2)"
    by blast
  from mj(4) have "sqdist (sample_face ! j) (mirrored sample_face 2)
      \<le> sqdist (sample_face ! 3) (mirrored sample_face 2)"
    by (simp add: length_sample_face)
  then have "sqdist (sample_face ! j) (mirrored sample_face 2) \<le> 0"
    by (simp add: mirrored_sample_2 sample_face_3 sqdist_def)
  then have "px (sample_face ! j) = - 1"
    using sqdist_zero[of "sample_face ! j" "mirrored sample_face 2"] by (simp add: mirrored_sample_2)
  with mj(3) have "j = 3" using sample_face_px by (simp add: length_sample_face)
  with mj h show ?thesis by auto
qed

text \<open>
  C7. When any of the midline landmarks 10, 152, 168 is absent, the function returns the
  empty map: no index has a correspondence and no plane is guessed.
\<close>

theorem missing_midline_empty_map:
  assumes "elem_at ls 10 = None \<or> elem_at ls 152 = None \<or> elem_at ls 168 = None"
  shows "calculateSymmetryMap ls = Inr Map.empty"
  using assms by (auto simp: calculateSymmetryMap_def split: option.splits)

theorem missing_midline_empty_map_witness:
  "(elem_at (replicate 153 origin) 10 = None \<or> elem_at (replicate 153 origin) 152 = None
      \<or> elem_at (replicate 153 origin) 168 = None)
   \<and> elem_at (replicate 153 origin) 152 = Some origin
   \<and> calculateSymmetryMap (replicate 153 origin) = Inr Map.empty"
proof -
  have h: "elem_at (replicate 153 origin) 10 = None \<or> elem_at (replicate 153 origin) 152 = None
      \<or> elem_at (replicate 153 origin) 168 = None"
    by (simp add: elem_at_def)
  show ?thesis using h missing_midline_empty_map[OF h] by (simp add: elem_at_def)
qed

text \<open>
  C9. On a non-empty landmark list in which the indices 1, 10, 152 and 168 are present the
  function returns a map (it raises nothing), the map is defined exactly on the indices
  \<open>0, ..., N - 1\<close> of the list, and every value is again such an index. The
  normalisation does not divide by zero: a vector of length zero is normalised to the zero
  vector.
\<close>

theorem symmetry_map_total:
  assumes "ls \<noteq> []" "elem_at ls 1 \<noteq> None" "elem_at ls 10 \<noteq> None" "elem_at ls 152 \<noteq> None"
    "elem_at ls 168 \<noteq> None"
  shows "(\<exists>m. calculateSymmetryMap ls = Inr m \<and> dom m = {..<length ls} \<and>
              (\<forall>i<length ls. \<exists>j<length ls. m i = Some (int j))) \<and>
         (sqrt (px a * px a + py a * py a + pz a * pz a) = 0 \<longrightarrow>
            normalize_vec a = \<lparr>px = 0, py = 0, pz = 0\<rparr>)"
proof
  from assms(5) have len: "168 < length ls" by (simp add: elem_at_None_iff)
  let ?m = "\<lambda>i. if i < length ls then Some (nearest ls (mirrored ls i)) else None"
  have m: "calculateSymmetryMap ls = Inr ?m" by (rule calculateSymmetryMap_present[OF len])
  have "dom ?m = {..<length ls}" by (auto simp: dom_def)
  moreover have "\<forall>i<length ls. \<exists>j<length ls. ?m i = Some (int j)"
  proof (intro allI impI)
    fix i assume i: "i < length ls"
    from nearest_first_minimum[OF assms(1), of "mirrored ls i"]
    obtain j where "j < length ls" "nearest ls (mirrored ls i) = int j" by blast
    with i show "\<exists>j<length ls. ?m i = Some (int j)" by auto
  qed
  ultimately show "\<exists>m. calculateSymmetryMap ls = Inr m \<and> dom m = {..<length ls} \<and>
              (\<forall>i<length ls. \<exists>j<length ls. m i = Some (int j))"
    using m by blast
next
  show "sqrt (px a * px a + py a * py a + pz a * pz a) = 0 \<longrightarrow>
            normalize_vec a = \<lparr>px = 0, py = 0, pz = 0\<rparr>"
    by (simp add: normalize_vec_def Let_def)
qed

theorem symmetry_map_total_witness:
  "sample_face \<noteq> [] \<and> elem_at sample_face 1 \<noteq> None \<and> elem_at sample_face 10 \<noteq> None \<and>
   elem_at sample_face 152 \<noteq> None \<and> elem_at sample_face 168 \<noteq> None \<and>
   (\<exists>m. calculateSymmetryMap sample_face = Inr m \<and> dom m = {..<169} \<and>
        (\<exists>j<169. m 168 = Some (int j))) \<and>
   normalize_vec origin = origin"
proof -
  have h: "sample_face \<noteq> []" "elem_at sample_face 1 \<noteq> None" "elem_at sample_face 10 \<noteq> None"
   "elem_at sample_face 152 \<noteq> None" "elem_at sample_face 168 \<noteq> None"
    using length_sample_face by (auto simp: elem_at_def)
  have z: "sqrt (px origin * px origin + py origin * py origin + pz origin * pz origin) = 0"
    by (simp add: origin_def)
  from symmetry_map_total[OF h, of origin] z length_sample_face h show ?thesis
    by (auto simp: origin_def)
qed

section \<open>Properties of the brush\<close>

text \<open>The loop of the handler computes a union in Add mode and a difference in Subtract mode.\<close>

lemma fold_selection_step_Add:
  "fold (selection_step Add) idxs (S, c) =
     (S |\<union>| fset_of_list idxs, c \<or> \<not> fset_of_list idxs |\<subseteq>| S)"
  by (induction idxs arbitrary: S c) (auto simp: selection_step_def Let_def)

lemma fold_selection_step_Subtract:
  "fold (selection_step Subtract) idxs (S, c) =
     (S |-| fset_of_list idxs, c \<or> fset_of_list idxs |\<inter>| S \<noteq> {||})"
  by (induction idxs arbitrary: S c) (auto simp: selection_step_def Let_def)

lemma handleSelectionChange_length:
  "length (handleSelectionChange act idxs m gs) = length gs"
  by (simp add: handleSelectionChange_def)

lemma handleSelectionChange_nth_Add:
  assumes "k < length gs" "gid (gs ! k) = act"
  shows "indices (handleSelectionChange act idxs Add gs ! k) = indices (gs ! k) |\<union>| fset_of_list idxs"
  using assms by (auto simp: handleSelectionChange_def fold_selection_step_Add Let_def)

lemma handleSelectionChange_nth_Subtract:
  assumes "k < length gs" "gid (gs ! k) = act"
  shows "indices (handleSelectionChange act idxs Subtract gs ! k) = indices (gs ! k) |-| fset_of_list idxs"
  using assms by (auto simp: handleSelectionChange_def fold_selection_step_Subtract Let_def)

lemma handleSelectionChange_frame:
  assumes "k < length gs"
  shows "(gid (gs ! k) \<noteq> act \<longrightarrow> handleSelectionChange act idxs m gs ! k = gs ! k) \<and>
         (\<exists>S. handleSelectionChange act idxs m gs ! k = (gs ! k)\<lparr>indices := S\<rparr>)"
proof -
  have "\<exists>S. g\<lparr>indices := S\<rparr> = g" for g :: SelectionGroup
    by (rule exI[of _ "indices g"]) simp
  then show ?thesis using assms
    by (auto simp: handleSelectionChange_def Let_def) metis+
qed

lemma handleSelectionChange_gid:
  "k < length gs \<Longrightarrow> gid (handleSelectionChange act idxs m gs ! k) = gid (gs ! k)"
  by (simp add: handleSelectionChange_def Let_def)

lemma performSelection_mode:
  "performSelection landmarks img v b m sx sy =
     map_option (\<lambda>ev. (fst ev, m)) (performSelection landmarks img v b Add sx sy)"
  by (simp add: performSelection_def Let_def split: option.splits)

lemma performSelection_snd:
  "performSelection landmarks img v b m sx sy = Some ev \<Longrightarrow> snd ev = m"
  by (auto simp: performSelection_def Let_def split: option.splits if_splits)

lemma brushSample_Add:
  assumes "k < length gs" "gid (gs ! k) = act"
  shows "indices (brushSample landmarks img v b Add act sx sy gs ! k)
           = indices (gs ! k) |\<union>| brushed landmarks img v b sx sy"
proof (cases "performSelection landmarks img v b Add sx sy")
  case None
  then show ?thesis by (simp add: brushSample_def brushed_def)
next
  case (Some ev)
  with performSelection_snd[OF Some] assms show ?thesis
    by (simp add: brushSample_def brushed_def handleSelectionChange_nth_Add)
qed

lemma brushSample_Subtract:
  assumes "k < length gs" "gid (gs ! k) = act"
  shows "indices (brushSample landmarks img v b Subtract act sx sy gs ! k)
           = indices (gs ! k) |-| brushed landmarks img v b sx sy"
proof (cases "performSelection landmarks img v b Add sx sy")
  case None
  then have "performSelection landmarks img v b Subtract sx sy = None"
    by (subst performSelection_mode) simp
  with None show ?thesis by (simp add: brushSample_def brushed_def)
next
  case (Some ev)
  then have "performSelection landmarks img v b Subtract sx sy = Some (fst ev, Subtract)"
    by (subst performSelection_mode) simp
  with Some assms show ?thesis
    by (simp add: brushSample_def brushed_def handleSelectionChange_nth_Subtract)
qed

lemma brushSample_length:
  "length (brushSample landmarks img v b m act sx sy gs) = length gs"
  by (simp add: brushSample_def handleSelectionChange_length split: option.splits)

lemma brushSample_gid:
  "k < length gs \<Longrightarrow> gid (brushSample landmarks img v b m act sx sy gs ! k) = gid (gs ! k)"
  by (simp add: brushSample_def handleSelectionChange_gid split: option.splits)

text \<open>
  C1 (as amended). For every group carrying the active id, a brush sample in Add mode
  followed by one in Subtract mode at the same screen position and radius, over the same
  landmarks, image and view, leaves the group with its indices from before the Add minus
  the indices under the brush. These are its contents from before the Add whenever none of
  the indices under the brush was in the group then.
\<close>

theorem add_then_subtract:
  assumes "k < length gs" "gid (gs ! k) = act"
  shows "indices (brushSample landmarks img v b Subtract act sx sy
                    (brushSample landmarks img v b Add act sx sy gs) ! k)
           = indices (gs ! k) |-| brushed landmarks img v b sx sy
         \<and> (indices (gs ! k) |\<inter>| brushed landmarks img v b sx sy = {||} \<longrightarrow>
              indices (brushSample landmarks img v b Subtract act sx sy
                         (brushSample landmarks img v b Add act sx sy gs) ! k)
                = indices (gs ! k))"
proof -
  let ?gs1 = "brushSample landmarks img v b Add act sx sy gs"
  have k1: "k < length ?gs1" using assms(1) by (simp add: brushSample_length)
  have g1: "gid (?gs1 ! k) = act" using assms by (simp add: brushSample_gid)
  have "indices (brushSample landmarks img v b Subtract act sx sy ?gs1 ! k)
          = (indices (gs ! k) |\<union>| brushed landmarks img v b sx sy) |-| brushed landmarks img v b sx sy"
    using brushSample_Subtract[OF k1 g1] brushSample_Add[OF assms] by simp
  then show ?thesis by auto
qed

lemma brushed_pts5: "brushed (Some pts5) (Some unit_image) unit_view 0.5 1 0 = {|1|}"
  by (simp add: brushed_def performSelection_def pts5_def unit_image_def unit_view_def
      screenToWorld_def distSq_def Let_def upt_rec power2_eq_square)

text \<open>
  C1 as stated fails: in the five-point scenario, with index 1 already in the active group,
  the brush at \<open>(1, 0)\<close> with radius 0.5 covers index 1; Add leaves the group as it is
  and Subtract removes index 1, which was there before the Add.
\<close>

theorem add_then_subtract_counterexample:
  "indices (brushSample (Some pts5) (Some unit_image) unit_view 0.5 Subtract ''1'' 1 0
              (brushSample (Some pts5) (Some unit_image) unit_view 0.5 Add ''1'' 1 0
                 [default_group {|1|}]) ! 0)
     \<noteq> indices ([default_group {|1|}] ! 0)"
  by (simp add: brushSample_def handleSelectionChange_def performSelection_def pts5_def unit_image_def unit_view_def
      screenToWorld_def distSq_def Let_def upt_rec power2_eq_square default_group_def selection_step_def)
     (metis finsert_not_fempty)



theorem add_then_subtract_witness:
  "0 < length [default_group {|0, 1|}] \<and> gid ([default_group {|0, 1|}] ! 0) = ''1'' \<and>
   indices (brushSample (Some pts5) (Some unit_image) unit_view 0.5 Subtract ''1'' 1 0
              (brushSample (Some pts5) (Some unit_image) unit_view 0.5 Add ''1'' 1 0
                 [default_group {|0, 1|}]) ! 0) = {|0|}"
proof -
  have h: "0 < length [default_group {|0, 1|}]" "gid ([default_group {|0, 1|}] ! 0) = ''1''"
    by (simp_all add: default_group_def)
  note t = add_then_subtract[OF h, of "Some pts5" "Some unit_image" unit_view "0.5" 1 0, THEN conjunct1]
  have "indices ([default_group {|0, 1|}] ! 0) |-| brushed (Some pts5) (Some unit_image) unit_view 0.5 1 0
          = {|0|}"
    unfolding brushed_pts5 by (auto simp: default_group_def)
  with t have "indices (brushSample (Some pts5) (Some unit_image) unit_view 0.5 Subtract ''1'' 1 0
              (brushSample (Some pts5) (Some unit_image) unit_view 0.5 Add ''1'' 1 0
                 [default_group {|0, 1|}]) ! 0) = {|0|}"
    by (rule trans)
  with h show ?thesis by blast
qed

lemma performSelection_some:
  "performSelection (Some ls) (Some img) v b m sx sy =
     (if within_brush img ls v b sx sy = {} then None
      else Some (map int (filter (\<lambda>i. i \<in> within_brush img ls v b sx sy) [0..<length ls]), m))"
proof -
  let ?P = "\<lambda>i. distSq img (screenToWorld v sx sy) (ls ! i) < (b / scale v)\<^sup>2"
  have f: "filter (\<lambda>i. i \<in> within_brush img ls v b sx sy) [0..<length ls] = filter ?P [0..<length ls]"
    by (rule filter_cong) (auto simp: within_brush_def)
  have e: "within_brush img ls v b sx sy = {} \<longleftrightarrow> filter ?P [0..<length ls] = []"
    by (auto simp: within_brush_def filter_empty_conv)
  show ?thesis unfolding f e
    by (simp add: performSelection_def Let_def)
qed

text \<open>
  C6. With landmarks and image present and a non-zero scale, the indices a brush sample
  collects are exactly those of the points whose squared world-space distance to the
  converted screen point is strictly below \<open>(brushSize / scale)\<^sup>2\<close>; when there is no
  such point, no selection-change call is made and the group list stays as it is.
\<close>

theorem brush_collects_within_radius:
  assumes "scale v \<noteq> 0"
  shows "(within_brush img ls v b sx sy \<noteq> {} \<longrightarrow>
            (\<exists>idxs. performSelection (Some ls) (Some img) v b m sx sy = Some (idxs, m) \<and>
                    set idxs = int ` within_brush img ls v b sx sy)) \<and>
         (within_brush img ls v b sx sy = {} \<longrightarrow>
            performSelection (Some ls) (Some img) v b m sx sy = None \<and>
            brushSample (Some ls) (Some img) v b m act sx sy gs = gs)"
proof -
  have "set (map int (filter (\<lambda>i. i \<in> within_brush img ls v b sx sy) [0..<length ls]))
          = int ` within_brush img ls v b sx sy"
    by (auto simp: within_brush_def)
  then show ?thesis
    by (simp add: performSelection_some brushSample_def)
qed

lemma within_brush_filter:
  "within_brush img ls v b sx sy =
     set (filter (\<lambda>i. distSq img (screenToWorld v sx sy) (ls ! i) < (b / scale v)\<^sup>2) [0..<length ls])"
  by (auto simp: within_brush_def)

lemma within_brush_pts5: "within_brush unit_image pts5 unit_view 0.5 1 0 = {1}"
  by (simp add: within_brush_filter pts5_def unit_image_def unit_view_def screenToWorld_def
        distSq_def Let_def power2_eq_square upt_rec)

lemma within_brush_pts5_far: "within_brush unit_image pts5 unit_view 0.5 9 9 = {}"
  by (simp add: within_brush_filter pts5_def unit_image_def unit_view_def screenToWorld_def
        distSq_def Let_def power2_eq_square upt_rec)

theorem brush_collects_within_radius_witness:
  "scale unit_view \<noteq> 0 \<and>
   (\<exists>idxs. performSelection (Some pts5) (Some unit_image) unit_view 0.5 Add 1 0 = Some (idxs, Add) \<and>
           set idxs = {1}) \<and>
   performSelection (Some pts5) (Some unit_image) unit_view 0.5 Add 9 9 = None \<and>
   brushSample (Some pts5) (Some unit_image) unit_view 0.5 Add ''1'' 9 9 [default_group {|0|}]
     = [default_group {|0|}]"
proof -
  have h: "scale unit_view \<noteq> 0" by (simp add: unit_view_def)
  note a = brush_collects_within_radius[OF h, of unit_image pts5 "0.5" 1 0 Add "''1''" "[]"]
  note b = brush_collects_within_radius[OF h, of unit_image pts5 "0.5" 9 9 Add "''1''" "[default_group {|0|}]"]
  from a have "\<exists>idxs. performSelection (Some pts5) (Some unit_image) unit_view 0.5 Add 1 0 = Some (idxs, Add) \<and>
           set idxs = {1}"
    unfolding within_brush_pts5 by simp
  moreover from b have "performSelection (Some pts5) (Some unit_image) unit_view 0.5 Add 9 9 = None \<and>
   brushSample (Some pts5) (Some unit_image) unit_view 0.5 Add ''1'' 9 9 [default_group {|0|}]
     = [default_group {|0|}]"
    unfolding within_brush_pts5_far by simp
  ultimately show ?thesis using h by blast
qed

text \<open>
  C10. A brush sample keeps the number of groups, returns every group whose id differs from
  the active id unchanged, and changes at most the \<open>indices\<close> field of any group: id,
  name, visibility and colour are kept.
\<close>

theorem brush_frame:
  assumes "k < length gs"
  shows "length (brushSample landmarks img v b m act sx sy gs) = length gs \<and>
         (gid (gs ! k) \<noteq> act \<longrightarrow> brushSample landmarks img v b m act sx sy gs ! k = gs ! k) \<and>
         (\<exists>S. brushSample landmarks img v b m act sx sy gs ! k = (gs ! k)\<lparr>indices := S\<rparr>) \<and>
         gid (brushSample landmarks img v b m act sx sy gs ! k) = gid (gs ! k) \<and>
         name (brushSample landmarks img v b m act sx sy gs ! k) = name (gs ! k) \<and>
         visible (brushSample landmarks img v b m act sx sy gs ! k) = visible (gs ! k) \<and>
         color (brushSample landmarks img v b m act sx sy gs ! k) = color (gs ! k)"
proof (cases "performSelection landmarks img v b m sx sy")
  case None
  have "\<exists>S. gs ! k = (gs ! k)\<lparr>indices := S\<rparr>"
    by (rule exI[of _ "indices (gs ! k)"]) simp
  with None show ?thesis by (simp add: brushSample_def)
next
  case (Some ev)
  then have eq: "brushSample landmarks img v b m act sx sy gs = handleSelectionChange act (fst ev) (snd ev) gs"
    by (simp add: brushSample_def)
  from handleSelectionChange_frame[OF assms, of act "fst ev" "snd ev"]
  obtain S where f: "gid (gs ! k) \<noteq> act \<longrightarrow> handleSelectionChange act (fst ev) (snd ev) gs ! k = gs ! k"
    "handleSelectionChange act (fst ev) (snd ev) gs ! k = (gs ! k)\<lparr>indices := S\<rparr>"
    by blast
  have e: "\<exists>T. handleSelectionChange act (fst ev) (snd ev) gs ! k = (gs ! k)\<lparr>indices := T\<rparr>"
    using f(2) by blast
  show ?thesis unfolding eq using f e by (simp add: handleSelectionChange_length)
qed

theorem brush_frame_witness:
  "1 < length [default_group {|0|}, second_group] \<and>
   brushSample (Some pts5) (Some unit_image) unit_view 0.5 Add ''1'' 1 0 [default_group {|0|}, second_group] ! 1
     = second_group \<and>
   name (brushSample (Some pts5) (Some unit_image) unit_view 0.5 Add ''1'' 1 0
           [default_group {|0|}, second_group] ! 0) = ''Default''"
proof -
  have h0: "0 < length [default_group {|0|}, second_group]" by simp
  have h1: "1 < length [default_group {|0|}, second_group]" by simp
  have g: "gid ([default_group {|0|}, second_group] ! 1) \<noteq> ''1''" by (simp add: second_group_def)
  note a = brush_frame[OF h1, of "Some pts5" "Some unit_image" unit_view "0.5" Add "''1''" 1 0]
  note b = brush_frame[OF h0, of "Some pts5" "Some unit_image" unit_view "0.5" Add "''1''" 1 0]
  from a g have "brushSample (Some pts5) (Some unit_image) unit_view 0.5 Add ''1'' 1 0
      [default_group {|0|}, second_group] ! 1 = second_group" by simp
  moreover from b have "name (brushSample (Some pts5) (Some unit_image) unit_view 0.5 Add ''1'' 1 0
           [default_group {|0|}, second_group] ! 0) = ''Default''" by (simp add: default_group_def)
  ultimately show ?thesis using h1 by blast
qed

section \<open>Properties of the wheel zoom\<close>

text \<open>
  C5. For a view with scale in \<open>[0.1, 20]\<close> the new scale is
  \<open>clamp(scale * exp(-deltaY * 0.001), 0.1, 20)\<close>, exactly 0.1 or 20 when the product
  leaves the interval, and with the new pan the world point that was under the cursor is
  painted at the cursor's screen position again.
\<close>

theorem wheel_zoom_clamped_anchor:
  assumes "0.1 \<le> scale v" "scale v \<le> 20"
  shows "scale (handleWheel v deltaY mouseX mouseY) = clamp (scale v * exp (- deltaY * 0.001)) 0.1 20 \<and>
         (scale v * exp (- deltaY * 0.001) < 0.1 \<longrightarrow> scale (handleWheel v deltaY mouseX mouseY) = 0.1) \<and>
         (20 < scale v * exp (- deltaY * 0.001) \<longrightarrow> scale (handleWheel v deltaY mouseX mouseY) = 20) \<and>
         worldToScreen (handleWheel v deltaY mouseX mouseY) (screenToWorld v mouseX mouseY)
           = (mouseX, mouseY)"
proof -
  have nz: "scale v \<noteq> 0" using assms(1) by auto
  have c: "scale (handleWheel v deltaY mouseX mouseY) = clamp (scale v * exp (- deltaY * 0.001)) 0.1 20"
    by (simp add: handleWheel_def clamp_def Let_def max_def min_def)
  have a: "worldToScreen (handleWheel v deltaY mouseX mouseY) (screenToWorld v mouseX mouseY)
           = (mouseX, mouseY)"
    using nz by (simp add: worldToScreen_def screenToWorld_def handleWheel_def Let_def field_simps)
  show ?thesis unfolding c using a by (simp add: clamp_def)
qed

theorem wheel_zoom_clamped_anchor_witness:
  "0.1 \<le> scale zoomed_view \<and> scale zoomed_view \<le> 20 \<and>
   screenToWorld zoomed_view 30 30 = (10, 10) \<and>
   scale (handleWheel zoomed_view 120 30 30) = clamp (2 * exp (- 120 * 0.001)) 0.1 20 \<and>
   worldToScreen (handleWheel zoomed_view 120 30 30) (10, 10) = (30, 30)"
proof -
  have h: "0.1 \<le> scale zoomed_view" "scale zoomed_view \<le> 20" by (simp_all add: zoomed_view_def)
  have w: "screenToWorld zoomed_view 30 30 = (10, 10)" by (simp add: screenToWorld_def zoomed_view_def)
  have s: "scale zoomed_view = 2" by (simp add: zoomed_view_def)
  from wheel_zoom_clamped_anchor[OF h, of 120 30 30] show ?thesis
    unfolding w s using h w by simp
qed

section \<open>Properties of the hover check\<close>

text \<open>The scan keeps the last index that is nearer than the threshold.\<close>

lemma hover_fold_inv:
  "fold (\<lambda>i found. if P i then int i else found) [0..<n] (- 1) = r \<Longrightarrow>
     (r = - 1 \<and> (\<forall>i<n. \<not> P i)) \<or>
     (0 \<le> r \<and> nat r < n \<and> P (nat r) \<and> (\<forall>i<n. P i \<longrightarrow> i \<le> nat r))"
proof (induction n arbitrary: r)
  case 0
  then show ?case by simp
next
  case (Suc n)
  let ?r0 = "fold (\<lambda>i found. if P i then int i else found) [0..<n] (- 1)"
  have r: "r = (if P n then int n else ?r0)" using Suc.prems by simp
  show ?case
  proof (cases "P n")
    case True
    with r show ?thesis by (auto simp: less_Suc_eq)
  next
    case False
    with r have "r = ?r0" by simp
    with Suc.IH[of ?r0] False show ?thesis by (auto simp: less_Suc_eq)
  qed
qed

lemma hoverCheck_some:
  "hoverCheck (Some img) (Some ls) v x y h =
     (let r = fold (\<lambda>i found. if hover_near img ls v x y i then int i else found) [0..<length ls] (- 1)
      in if r \<noteq> - 1 then Some r else None)"
  by (simp add: hoverCheck_def hover_near_def Let_def)

text \<open>
  C2 (as amended). With image and landmarks present and a non-zero scale, the hover check
  returns none when no point is nearer to the converted pointer position than \<open>5 / scale\<close>,
  and otherwise the highest index among the points that are: the last one in index order,
  which need not be the closest.
\<close>

theorem hover_last_within_threshold:
  assumes "scale v \<noteq> 0"
  shows "((\<forall>i<length ls. \<not> hover_near img ls v x y i) \<longrightarrow>
            hoverCheck (Some img) (Some ls) v x y h = None) \<and>
         ((\<exists>i<length ls. hover_near img ls v x y i) \<longrightarrow>
            (\<exists>j<length ls. hoverCheck (Some img) (Some ls) v x y h = Some (int j) \<and>
                 hover_near img ls v x y j \<and>
                 (\<forall>i<length ls. hover_near img ls v x y i \<longrightarrow> i \<le> j)))"
proof -
  let ?r = "fold (\<lambda>i found. if hover_near img ls v x y i then int i else found) [0..<length ls] (- 1)"
  from hover_fold_inv[of "hover_near img ls v x y" "length ls" ?r]
  consider (none) "?r = - 1" "\<forall>i<length ls. \<not> hover_near img ls v x y i"
    | (some) "0 \<le> ?r" "nat ?r < length ls" "hover_near img ls v x y (nat ?r)"
        "\<forall>i<length ls. hover_near img ls v x y i \<longrightarrow> i \<le> nat ?r"
    by blast
  then show ?thesis
  proof cases
    case none
    then show ?thesis by (simp add: hoverCheck_some)
  next
    case some
    from some(1) have ne: "?r \<noteq> - 1" by simp
    have "hoverCheck (Some img) (Some ls) v x y h = Some (int (nat ?r))"
      using some(1) ne by (simp add: hoverCheck_some Let_def)
    with some show ?thesis by blast
  qed
qed

lemma sqrt_less_iff: "0 < t \<Longrightarrow> sqrt x < t \<longleftrightarrow> x < t\<^sup>2"
proof -
  assume t: "0 < t"
  have "sqrt x < t \<longleftrightarrow> sqrt x < sqrt (t\<^sup>2)" using t by simp
  also have "\<dots> \<longleftrightarrow> x < t\<^sup>2" by (rule real_sqrt_less_iff)
  finally show ?thesis .
qed

lemma hover_near_pts5:
  "hover_near unit_image pts5 unit_view 1 0 4" "hover_near unit_image pts5 unit_view 1 0 1"
  by (simp_all add: hover_near_def hover_dist_def pts5_def unit_image_def unit_view_def
      screenToWorld_def Let_def)

lemma hoverCheck_pts5: "hoverCheck (Some unit_image) (Some pts5) unit_view 1 0 None = Some 4"
  by (simp add: hoverCheck_def hover_dist_def pts5_def unit_image_def unit_view_def
      screenToWorld_def Let_def upt_rec sqrt_less_iff)

text \<open>
  C2 as stated fails: in the five-point scenario with the pointer at \<open>(1, 0)\<close> all five
  points are nearer than the threshold; the check returns index 4, at distance 1, although
  index 1 is at distance 0.
\<close>

theorem hover_closest_counterexample:
  "hoverCheck (Some unit_image) (Some pts5) unit_view 1 0 None = Some 4 \<and>
   hover_dist unit_image (screenToWorld unit_view 1 0) (pts5 ! 1)
     < hover_dist unit_image (screenToWorld unit_view 1 0) (pts5 ! 4) \<and>
   \<not> closest_within_threshold unit_image pts5 unit_view 1 0
       (hoverCheck (Some unit_image) (Some pts5) unit_view 1 0 None)"
proof -
  have d: "hover_dist unit_image (screenToWorld unit_view 1 0) (pts5 ! 1)
     < hover_dist unit_image (screenToWorld unit_view 1 0) (pts5 ! 4)"
    by (simp add: hover_dist_def pts5_def unit_image_def unit_view_def screenToWorld_def Let_def)
  have l: "(1::nat) < length pts5" by (simp add: pts5_def)
  have "\<not> closest_within_threshold unit_image pts5 unit_view 1 0 (Some 4)"
  proof
    assume "closest_within_threshold unit_image pts5 unit_view 1 0 (Some 4)"
    then have "\<forall>i<length pts5. hover_dist unit_image (screenToWorld unit_view 1 0) (pts5 ! 4)
                            \<le> hover_dist unit_image (screenToWorld unit_view 1 0) (pts5 ! i)"
      by (simp add: closest_within_threshold_def)
    with l have "hover_dist unit_image (screenToWorld unit_view 1 0) (pts5 ! 4)
                            \<le> hover_dist unit_image (screenToWorld unit_view 1 0) (pts5 ! 1)"
      by blast
    with d show False by simp
  qed
  with d hoverCheck_pts5 show ?thesis by simp
qed

theorem hover_last_within_threshold_witness:
  "scale unit_view \<noteq> 0 \<and> (\<exists>i<length pts5. hover_near unit_image pts5 unit_view 1 0 i) \<and>
   hoverCheck (Some unit_image) (Some pts5) unit_view 1 0 None = Some 4"
proof -
  have h: "scale unit_view \<noteq> 0" by (simp add: unit_view_def)
  have l: "length pts5 = 5" by (simp add: pts5_def)
  have e: "\<exists>i<length pts5. hover_near unit_image pts5 unit_view 1 0 i"
    using hover_near_pts5(1) l by (intro exI[of _ 4]) simp
  from hover_last_within_threshold[OF h, of pts5 unit_image 1 0 None] e
  obtain j where j: "j < length pts5" "hoverCheck (Some unit_image) (Some pts5) unit_view 1 0 None = Some (int j)"
    "\<forall>i<length pts5. hover_near unit_image pts5 unit_view 1 0 i \<longrightarrow> i \<le> j"
    by blast
  from j(3) hover_near_pts5(1) l have "4 \<le> j" by simp
  with j(1) l have "j = 4" by simp
  with j(2) h e show ?thesis by simp
qed

section \<open>Properties of export and import\<close>

text \<open>Importing an object whose values are all arrays gives one group per entry, in order.\<close>

lemma summary_make:
  "summary \<lparr>gid = i, name = n, indices = S, visible = b, color = c\<rparr> = (n, sorted_list_of_fset S)"
  by (simp add: summary_def)

lemma import_entries_arrays:
  "map summary (fst (import_entries genId rnd (map (\<lambda>e. (fst e, JArray (snd e))) es) idx acc))
     = map summary (fst acc) @ map (\<lambda>e. (fst e, sorted_list_of_fset (fset_of_list (snd e)))) es"
proof (induction es arbitrary: idx acc)
  case Nil
  show ?case by simp
next
  case (Cons e es)
  show ?case by (simp add: Cons.IH Let_def summary_make)
qed

lemma set_insert_index: "set (insert_index n k v obj) = insert (k, v) (set obj)"
  by (induction obj) (auto split: option.splits)

lemma obj_set_values:
  assumes "\<forall>e\<in>set obj. P (snd e)" "P v"
  shows "\<forall>e\<in>set (obj_set k v obj). P (snd e)"
  using assms by (auto simp: obj_set_def set_insert_index split: option.splits)

lemma fold_obj_set_values:
  assumes "\<forall>e\<in>set obj. P (snd e)" "\<forall>g. P (f g)"
  shows "\<forall>e\<in>set (fold (\<lambda>g obj. obj_set (name g) (f g) obj) gs obj). P (snd e)"
  using assms(1)
proof (induction gs arbitrary: obj)
  case Nil
  then show ?case by simp
next
  case (Cons g gs)
  have "\<forall>e\<in>set (obj_set (name g) (f g) obj). P (snd e)"
    using obj_set_values[OF Cons.prems] assms(2) by blast
  from Cons.IH[OF this] show ?case by simp
qed

lemma exportData_values:
  "\<forall>e\<in>set (exportData gs). \<exists>S. snd e = sorted_list_of_fset S"
  unfolding exportData_def
  by (rule fold_obj_set_values) auto

text \<open>
  While the names are new, an assignment inserts an array-index key at its numeric place and
  appends any other key, so the object stays ordered by \<open>entry_key\<close>.
\<close>

lemma insert_index_insort:
  "array_index k = Some n \<Longrightarrow> insert_index n k v obj = insort_key entry_key (k, v) obj"
  by (induction obj) (auto simp: entry_key_def split: option.splits)

lemma obj_set_new:
  assumes "k \<noteq> ''__proto__''" "k \<notin> fst ` set obj"
  shows "obj_set k v obj =
           (if plain_key (k, v) then obj @ [(k, v)] else insort_key entry_key (k, v) obj)"
  using assms by (auto simp: obj_set_def plain_key_def insert_index_insort split: option.splits)

lemma sorted_snoc_plain:
  assumes "sorted (map entry_key obj)" "plain_key e"
  shows "sorted (map entry_key (obj @ [e]))"
  using assms by (simp add: sorted_append entry_key_def plain_key_def)

lemma fold_obj_set_distinct:
  assumes "distinct (map fst es)" "\<forall>e\<in>set es. fst e \<noteq> ''__proto__''"
    "fst ` set obj \<inter> fst ` set es = {}" "sorted (map entry_key obj)"
  shows "mset (fold (\<lambda>e. obj_set (fst e) (snd e)) es obj) = mset obj + mset es \<and>
         sorted (map entry_key (fold (\<lambda>e. obj_set (fst e) (snd e)) es obj)) \<and>
         filter plain_key (fold (\<lambda>e. obj_set (fst e) (snd e)) es obj)
           = filter plain_key obj @ filter plain_key es"
  using assms
proof (induction es arbitrary: obj)
  case Nil
  then show ?case by simp
next
  case (Cons e es)
  let ?obj = "obj_set (fst e) (snd e) obj"
  have new: "fst e \<noteq> ''__proto__''" "fst e \<notin> fst ` set obj"
    using Cons.prems(2,3) by auto
  have eq: "?obj = (if plain_key e then obj @ [e] else insort_key entry_key e obj)"
    using obj_set_new[OF new, of "snd e"] by simp
  have m: "mset ?obj = mset obj + {#e#}" unfolding eq by simp
  have s: "sorted (map entry_key ?obj)"
  proof (cases "plain_key e")
    case True
    with eq sorted_snoc_plain[OF Cons.prems(4) True] show ?thesis by simp
  next
    case False
    with eq Cons.prems(4) show ?thesis by (simp add: sorted_insort_key)
  qed
  have f: "filter plain_key ?obj = filter plain_key obj @ filter plain_key [e]"
    unfolding eq by (simp add: filter_insort_triv)
  have "set_mset (mset ?obj) = set_mset (mset obj + {#e#})" using m by simp
  then have so: "set ?obj = insert e (set obj)" by simp
  have "fst e \<notin> fst ` set es" using Cons.prems(1) by auto
  moreover have "fst ` set obj \<inter> fst ` set es = {}" using Cons.prems(3) by auto
  ultimately have d: "fst ` set ?obj \<inter> fst ` set es = {}"
    unfolding so by auto
  have de: "distinct (map fst es)" "\<forall>e\<in>set es. fst e \<noteq> ''__proto__''"
    using Cons.prems(1,2) by auto
  from Cons.IH[OF de d s] have ih:
    "mset (fold (\<lambda>e. obj_set (fst e) (snd e)) es ?obj) = mset ?obj + mset es"
    "sorted (map entry_key (fold (\<lambda>e. obj_set (fst e) (snd e)) es ?obj))"
    "filter plain_key (fold (\<lambda>e. obj_set (fst e) (snd e)) es ?obj)
           = filter plain_key ?obj @ filter plain_key es"
    by blast+
  have c: "fold (\<lambda>e. obj_set (fst e) (snd e)) (e # es) obj = fold (\<lambda>e. obj_set (fst e) (snd e)) es ?obj"
    by simp
  show ?case unfolding c ih(1) ih(3) m f using ih(2) by simp
qed

lemma exportData_fold:
  "exportData gs = fold (\<lambda>e. obj_set (fst e) (snd e)) (map summary gs) []"
  unfolding exportData_def fold_map by (simp add: comp_def summary_def)

lemma exportData_distinct:
  assumes "distinct (map name gs)" "\<forall>g\<in>set gs. name g \<noteq> ''__proto__''"
  shows "mset (exportData gs) = mset (map summary gs) \<and>
    sorted (map entry_key (exportData gs)) \<and>
    filter plain_key (exportData gs) = filter plain_key (map summary gs)"
proof -
  have "fst \<circ> summary = name" by (simp add: fun_eq_iff summary_def)
  then have "map fst (map summary gs) = map name gs" by simp
  then have 1: "distinct (map fst (map summary gs))" using assms(1) by (simp only:)
  have 2: "\<forall>e\<in>set (map summary gs). fst e \<noteq> ''__proto__''" using assms(2) by (simp add: summary_def)
  have 3: "fst ` set ([] :: (string \<times> int list) list) \<inter> fst ` set (map summary gs) = {}" by simp
  have 4: "sorted (map entry_key ([] :: (string \<times> int list) list))" by simp
  from fold_obj_set_distinct[OF 1 2 3 4]
  show ?thesis unfolding exportData_fold by simp
qed


lemma import_exported:
  assumes "exportData gs \<noteq> []"
  shows "\<exists>st'. handleImportJSON genId rnd (handleExport gs) st = Inr st' \<and>
           map summary (groups st') = exportData gs"
proof -
  let ?res = "import_entries genId rnd (map (\<lambda>e. (fst e, JArray (snd e))) (exportData gs)) 0 ([], [])"
  have "map summary (fst ?res)
          = map (\<lambda>e. (fst e, sorted_list_of_fset (fset_of_list (snd e)))) (exportData gs)"
    using import_entries_arrays[of genId rnd "exportData gs" 0 "([], [])"] by simp
  also have "\<dots> = map (\<lambda>e. e) (exportData gs)"
  proof (rule map_cong[OF refl])
    fix e assume "e \<in> set (exportData gs)"
    with exportData_values obtain S where "snd e = sorted_list_of_fset S" by blast
    then show "(fst e, sorted_list_of_fset (fset_of_list (snd e))) = e"
      by (simp add: prod_eq_iff)
  qed
  finally have m: "map summary (fst ?res) = exportData gs" by simp
  with assms have "fst ?res \<noteq> []" by auto
  then have "handleImportJSON genId rnd (handleExport gs) st
               = Inr \<lparr>groups = fst ?res, activeGroupId = snd ?res\<rparr>"
    by (simp add: handleImportJSON_def handleExport_def Let_def)
  with m show ?thesis by simp
qed

lemma export_plain_order:
  assumes e1: "mset (exportData gs) = mset (map summary gs)"
   and e3: "filter plain_key (exportData gs) = filter plain_key (map summary gs)"
   and p: "\<forall>g\<in>set gs. array_index (name g) = None"
  shows "exportData gs = map summary gs"
proof -
  have a: "\<forall>x\<in>set (map summary gs). plain_key x"
  proof
    fix x assume "x \<in> set (map summary gs)"
    then obtain g where g: "g \<in> set gs" "x = summary g" by auto
    from p g(1) have "array_index (name g) = None" by blast
    with g(2) show "plain_key x" by (simp add: plain_key_def summary_def)
  qed
  have s: "set (exportData gs) = set (map summary gs)"
    by (rule mset_eq_setD[OF e1])
  have b: "\<forall>x\<in>set (exportData gs). plain_key x" unfolding s by (rule a)
  have fx: "filter plain_key (exportData gs) = exportData gs" using b by (rule filter_True)
  have fy: "filter plain_key (map summary gs) = map summary gs" using a by (rule filter_True)
  have "exportData gs = filter plain_key (exportData gs)" by (rule fx[symmetric])
  also have "\<dots> = filter plain_key (map summary gs)" by (rule e3)
  also have "\<dots> = map summary gs" by (rule fy)
  finally show ?thesis .
qed


text \<open>
  C8 (as amended). For every non-empty group list whose names are pairwise distinct and none
  of which is \<open>__proto__\<close>, importing the exported document succeeds and the new groups
  carry exactly the names and ascending index arrays of the original groups, one group for
  each original one. Groups whose name is an array index come first, in ascending numeric
  order; the others keep their relative order, so that the list is reproduced in its
  original order when no name is an array index.
\<close>

theorem export_import_roundtrip_groups:
  assumes "gs \<noteq> []" "distinct (map name gs)" "\<forall>g\<in>set gs. name g \<noteq> ''__proto__''"
  shows "\<exists>st'. handleImportJSON genId rnd (handleExport gs) st = Inr st' \<and>
           mset (map summary (groups st')) = mset (map summary gs) \<and>
           sorted (map entry_key (map summary (groups st'))) \<and>
           filter plain_key (map summary (groups st')) = filter plain_key (map summary gs) \<and>
           ((\<forall>g\<in>set gs. array_index (name g) = None) \<longrightarrow>
              map summary (groups st') = map summary gs)"
proof -
  note ed = exportData_distinct[OF assms(2,3)]
  note e = ed[THEN conjunct1] ed[THEN conjunct2, THEN conjunct1] ed[THEN conjunct2, THEN conjunct2]
  have "length (exportData gs) = length (map summary gs)"
    by (rule mset_eq_length[OF e(1)])
  then have "length (exportData gs) = length gs" by (simp only: length_map)
  with assms(1) have ne: "exportData gs \<noteq> []" by auto
  from import_exported[OF ne, of genId rnd st] obtain st' where
    st': "handleImportJSON genId rnd (handleExport gs) st = Inr st'"
      "map summary (groups st') = exportData gs" by blast
  show ?thesis
  proof (intro exI conjI impI)
    show "handleImportJSON genId rnd (handleExport gs) st = Inr st'" by (rule st'(1))
    show "mset (map summary (groups st')) = mset (map summary gs)" unfolding st'(2) by (rule e(1))
    show "sorted (map entry_key (map summary (groups st')))" unfolding st'(2) by (rule e(2))
    show "filter plain_key (map summary (groups st')) = filter plain_key (map summary gs)"
      unfolding st'(2) by (rule e(3))
    show "map summary (groups st') = map summary gs" if "\<forall>g\<in>set gs. array_index (name g) = None"
      unfolding st'(2) using e(1) e(3) that by (rule export_plain_order)
  qed
qed

lemma sorted_31: "sorted_list_of_fset {|3, 1 :: int|} = [1, 3]"
  by (simp add: sorted_list_of_fset.rep_eq)

lemma sorted_4: "sorted_list_of_fset {|4 :: int|} = [4]"
  by (simp add: sorted_list_of_fset.rep_eq)

lemma array_index_brow: "array_index ''brow'' = None"
  by (simp add: array_index_def is_digit_def)

lemma array_index_7: "array_index ''7'' = Some 7"
  by (simp add: array_index_def is_digit_def dec_value_def)

lemma exportData_named: "exportData named_groups = [(''7'', [4]), (''brow'', [1, 3])]"
  by (simp add: exportData_def named_groups_def obj_set_def sorted_31 sorted_4 array_index_brow array_index_7)

lemma array_index_A: "array_index ''A'' = None"
  by (simp add: array_index_def is_digit_def)

lemma sorted_1: "sorted_list_of_fset {|1 :: int|} = [1]"
  by (simp add: sorted_list_of_fset.rep_eq)

lemma sorted_2: "sorted_list_of_fset {|2 :: int|} = [2]"
  by (simp add: sorted_list_of_fset.rep_eq)

lemma exportData_twin: "exportData twin_groups = [(''A'', [2])]"
  by (simp add: exportData_def twin_groups_def obj_set_def sorted_1 sorted_2 array_index_A)

lemma summary_twin: "map summary twin_groups = [(''A'', [1]), (''A'', [2])]"
  by (simp add: twin_groups_def summary_def sorted_1 sorted_2)

lemma import_twin:
  "handleImportJSON sample_ids sample_rnd (handleExport twin_groups)
       \<lparr>groups = twin_groups, activeGroupId = ''1''\<rparr>
     = Inr \<lparr>groups = [\<lparr>gid = ''id0'', name = ''A'', indices = {|2|}, visible = True, color = ''#bb86fc''\<rparr>],
            activeGroupId = ''id0''\<rparr>"
  by (simp add: handleExport_def exportData_twin handleImportJSON_def Let_def sample_ids_def sample_rnd_def
      getRandomColor_def colors_def)

text \<open>
  C8 as stated fails: the exported object has one key per name, so of two groups named
  \<open>A\<close> only the later one is exported, and the import gives a single group.
\<close>

theorem export_import_duplicate_names_counterexample:
  "handleImportJSON sample_ids sample_rnd (handleExport twin_groups)
       \<lparr>groups = twin_groups, activeGroupId = ''1''\<rparr>
     = Inr \<lparr>groups = [\<lparr>gid = ''id0'', name = ''A'', indices = {|2|}, visible = True, color = ''#bb86fc''\<rparr>],
            activeGroupId = ''id0''\<rparr> \<and>
   map summary twin_groups = [(''A'', [1]), (''A'', [2])] \<and>
   map summary [\<lparr>gid = ''id0'', name = ''A'', indices = {|2|}, visible = True, color = ''#bb86fc''\<rparr>]
     \<noteq> map summary twin_groups"
  unfolding import_twin summary_twin by (simp add: summary_def)

text \<open>
  A group named \<open>__proto__\<close> is missing from the exported object; when it is the only
  group, the import rejects the document.
\<close>

lemma export_without_proto:
  "handleExport [proto_group] = JObject [] \<and>
   handleImportJSON genId rnd (handleExport [proto_group]) st = Inl ''No valid groups found in JSON.''"
  by (simp add: handleExport_def exportData_def obj_set_def proto_group_def handleImportJSON_def)

lemma summary_named: "map summary named_groups = [(''brow'', [1, 3]), (''7'', [4])]"
  by (simp add: named_groups_def summary_def sorted_31 sorted_4)

lemma summary_default: "map summary [default_group {|3, 1|}, second_group]
    = [(''Default'', [1, 3]), (''Group 2'', [4])]"
  by (simp add: default_group_def second_group_def summary_def sorted_31 sorted_4)

lemma array_index_sample: "array_index ''Default'' = None" "array_index ''Group 2'' = None"
  by (simp_all add: array_index_def is_digit_def)

theorem export_import_roundtrip_groups_witness:
  "named_groups \<noteq> [] \<and> distinct (map name named_groups) \<and>
   ''__proto__'' \<notin> set (map name named_groups) \<and>
   (\<exists>st'. handleImportJSON sample_ids sample_rnd (handleExport named_groups) initial_state = Inr st' \<and>
          mset (map summary (groups st')) = {#(''brow'', [1, 3]), (''7'', [4])#} \<and>
          filter plain_key (map summary (groups st')) = [(''brow'', [1, 3])]) \<and>
   map (\<lambda>g. array_index (name g)) [default_group {|3, 1|}, second_group] = [None, None] \<and>
   (\<exists>st'. handleImportJSON sample_ids sample_rnd (handleExport [default_group {|3, 1|}, second_group])
             initial_state = Inr st' \<and>
          map summary (groups st') = [(''Default'', [1, 3]), (''Group 2'', [4])])"
proof -
  have h: "named_groups \<noteq> []" "distinct (map name named_groups)"
    "\<forall>g\<in>set named_groups. name g \<noteq> ''__proto__''"
    by (simp_all add: named_groups_def)
  have k: "[default_group {|3, 1|}, second_group] \<noteq> []"
    "distinct (map name [default_group {|3, 1|}, second_group])"
    "\<forall>g\<in>set [default_group {|3, 1|}, second_group]. name g \<noteq> ''__proto__''"
    by (simp_all add: default_group_def second_group_def)
  have p: "\<forall>g\<in>set [default_group {|3, 1|}, second_group]. array_index (name g) = None"
    by (simp add: default_group_def second_group_def array_index_sample)
  have pk: "filter plain_key [(''brow'', [1, 3]), (''7'', [4::int])] = [(''brow'', [1, 3])]"
    by (simp add: plain_key_def array_index_brow array_index_7)
  from export_import_roundtrip_groups[OF h, of sample_ids sample_rnd initial_state]
  obtain st1 where a: "handleImportJSON sample_ids sample_rnd (handleExport named_groups) initial_state = Inr st1"
    "mset (map summary (groups st1)) = mset (map summary named_groups)"
    "filter plain_key (map summary (groups st1)) = filter plain_key (map summary named_groups)"
    by blast
  from export_import_roundtrip_groups[OF k, of sample_ids sample_rnd initial_state] p
  obtain st2 where b: "handleImportJSON sample_ids sample_rnd (handleExport [default_group {|3, 1|}, second_group])
             initial_state = Inr st2"
    "map summary (groups st2) = map summary [default_group {|3, 1|}, second_group]"
    by blast
  have a2: "mset (map summary (groups st1)) = {#(''brow'', [1, 3]), (''7'', [4])#}"
    unfolding a(2) summary_named by simp
  have a3: "filter plain_key (map summary (groups st1)) = [(''brow'', [1, 3])]"
    unfolding a(3) summary_named by (rule pk)
  have b2: "map summary (groups st2) = [(''Default'', [1, 3]), (''Group 2'', [4])]"
    unfolding b(2) by (rule summary_default)
  have A: "\<exists>st'. handleImportJSON sample_ids sample_rnd (handleExport named_groups) initial_state = Inr st' \<and>
          mset (map summary (groups st')) = {#(''brow'', [1, 3]), (''7'', [4])#} \<and>
          filter plain_key (map summary (groups st')) = [(''brow'', [1, 3])]"
    by (rule exI[of _ st1]) (intro conjI a(1) a2 a3)
  have B: "\<exists>st'. handleImportJSON sample_ids sample_rnd (handleExport [default_group {|3, 1|}, second_group])
             initial_state = Inr st' \<and>
          map summary (groups st') = [(''Default'', [1, 3]), (''Group 2'', [4])]"
    by (rule exI[of _ st2]) (intro conjI b(1) b2)
  have h3: "''__proto__'' \<notin> set (map name named_groups)"
    by (simp add: named_groups_def)
  have p2: "map (\<lambda>g. array_index (name g)) [default_group {|3, 1|}, second_group] = [None, None]"
    by (simp add: default_group_def second_group_def array_index_sample)
  show ?thesis by (intro conjI h(1) h(2) h3 p2 A B)
qed

text \<open>
  C4 at the object \<open>{"a": 1, "b": [2]}\<close>: the groups are replaced by the one group
  \<open>b\<close>, but the active id is the id generated for the skipped first key \<open>a\<close>, which no
  group of the new list carries.
\<close>

theorem import_first_key_skipped:
  "handleImportJSON sample_ids sample_rnd (JObject [(''a'', JPrimitive), (''b'', JArray [2])]) initial_state
     = Inr \<lparr>groups = [\<lparr>gid = ''id1'', name = ''b'', indices = {|2|}, visible = True, color = ''#bb86fc''\<rparr>],
            activeGroupId = ''id0''\<rparr>
   \<and> ''id0'' \<notin> gid ` set [\<lparr>gid = ''id1'', name = ''b'', indices = {|2|}, visible = True, color = ''#bb86fc''\<rparr>]"
  by (simp add: handleImportJSON_def Let_def sample_ids_def sample_rnd_def getRandomColor_def colors_def)

end
